theory Spec2Isabelle
  imports Complex_Main "HOL-Library.Char_ord" "HOL-Library.List_Lexorder"
    "HOL-Library.Product_Lexorder"
begin

section \<open>Python values the generator computes with\<close>

text \<open>
  Exceptions of the source that a modelled function can raise become values of this type;
  a fallible function returns \<open>py_error + 'a\<close> with \<open>Inl\<close> for the exception.
\<close>

datatype py_error = IndexError | OverflowError

subsection \<open>Multiplying an integer by a float literal and truncating\<close>

text \<open>
  The limits are split with expressions such as \<^verbatim>\<open>int(self.scenario_limit * 0.4)\<close>.
  Python converts the integer to an IEEE 754 double (round to nearest, ties to even,
  OverflowError when the rounded magnitude reaches \<open>2 ^ 1024\<close>), multiplies two doubles
  with one rounding, and \<^verbatim>\<open>int\<close> truncates toward zero.  A positive double is an
  integer mantissa of at most 53 bits times a power of two, so all of this is integer
  arithmetic: \<open>bitlen\<close> is the number of binary digits, \<open>rne53\<close> rounds an exact
  non-negative integer to 53 significant bits.
\<close>

fun bitlen :: "int \<Rightarrow> nat" where
  "bitlen n = (if n \<le> 0 then 0 else Suc (bitlen (n div 2)))"

declare bitlen.simps [simp del]

definition rne53 :: "int \<Rightarrow> int" where
  "rne53 p = (let k = bitlen p in
     if k \<le> 53 then p
     else let s = k - 53; q = p div 2 ^ s; r = p mod 2 ^ s; h = 2 ^ (s - 1)
          in if h < r \<or> (r = h \<and> odd q) then (q + 1) * 2 ^ s else q * 2 ^ s)"

text \<open>
  The literals: \<open>0.4\<close> is the double \<open>7205759403792794 / 2 ^ 54\<close>, \<open>0.3\<close> is
  \<open>5404319552844595 / 2 ^ 54\<close> and \<open>0.7\<close> is \<open>6305039478318694 / 2 ^ 53\<close>
  (the doubles nearest to the decimal fractions, see \<open>double_literals_nearest\<close>).
\<close>

definition mant_0_4 :: int where "mant_0_4 = 7205759403792794"
definition mant_0_3 :: int where "mant_0_3 = 5404319552844595"
definition mant_0_7 :: int where "mant_0_7 = 6305039478318694"

text \<open>
  \<open>int_times_double L m e\<close> is \<^verbatim>\<open>int(L * c)\<close> for the integer \<open>L\<close> and the double
  \<open>c = m / 2 ^ e\<close>, \<open>0 < c < 1\<close>: the product of the converted integer and the
  mantissa is exact, is rounded once, and is then truncated.
\<close>

definition int_times_double :: "int \<Rightarrow> int \<Rightarrow> nat \<Rightarrow> py_error + int" where
  "int_times_double L m e =
     (let a = rne53 \<bar>L\<bar> in
      if 2 ^ 1024 \<le> a then Inl OverflowError
      else Inr (sgn L * (rne53 (a * m) div 2 ^ e)))"

section \<open>The scenario generator's split of its limit\<close>

text \<open>
  \<^verbatim>\<open>generate_specific_scenario_questions\<close> starts with
  \<^verbatim>\<open>
  award_limit = int(self.scenario_limit * 0.4)
  giver_limit = int(self.scenario_limit * 0.3)
  recipient_limit = int(self.scenario_limit * 0.3)
  \<close>
\<close>

definition scenario_targets :: "int \<Rightarrow> py_error + (int \<times> int \<times> int)" where
  "scenario_targets scenario_limit =
     (case int_times_double scenario_limit mant_0_4 54 of
        Inl err \<Rightarrow> Inl err
      | Inr award_limit \<Rightarrow>
         (case int_times_double scenario_limit mant_0_3 54 of
            Inl err \<Rightarrow> Inl err
          | Inr giver_limit \<Rightarrow>
             (case int_times_double scenario_limit mant_0_3 54 of
                Inl err \<Rightarrow> Inl err
              | Inr recipient_limit \<Rightarrow> Inr (award_limit, giver_limit, recipient_limit))))"

section \<open>Python strings\<close>

text \<open>
  A Python string is modelled as a list of code points below 256 (the Latin-1 range),
  one \<open>char\<close> each, so \<open>length\<close> is Python's \<^verbatim>\<open>len\<close>.  The character classes
  are Python's on that range.
\<close>

definition isspace_chr :: "char \<Rightarrow> bool" where
  "isspace_chr c = (let n = (of_char c :: nat) in
     (9 \<le> n \<and> n \<le> 13) \<or> (28 \<le> n \<and> n \<le> 32) \<or> n = 133 \<or> n = 160)"

definition isupper_chr :: "char \<Rightarrow> bool" where
  "isupper_chr c = (let n = (of_char c :: nat) in
     (65 \<le> n \<and> n \<le> 90) \<or> (192 \<le> n \<and> n \<le> 214) \<or> (216 \<le> n \<and> n \<le> 222))"

definition isalpha_chr :: "char \<Rightarrow> bool" where
  "isalpha_chr c = (let n = (of_char c :: nat) in
     (65 \<le> n \<and> n \<le> 90) \<or> (97 \<le> n \<and> n \<le> 122) \<or> n = 170 \<or> n = 181 \<or> n = 186 \<or>
     (192 \<le> n \<and> n \<le> 214) \<or> (216 \<le> n \<and> n \<le> 246) \<or> (248 \<le> n \<and> n \<le> 255))"

definition isdigit_chr :: "char \<Rightarrow> bool" where
  "isdigit_chr c = (let n = (of_char c :: nat) in 48 \<le> n \<and> n \<le> 57)"

text \<open>
  \<^verbatim>\<open>str.lower\<close>: an uppercase letter of the range moves up by 32, which sets bit 5 of
  its code point (the bit is clear in every uppercase letter of the range).
\<close>

definition lower_chr :: "char \<Rightarrow> char" where
  "lower_chr c = (if isupper_chr c
     then (case c of Char b0 b1 b2 b3 b4 b5 b6 b7 \<Rightarrow> Char b0 b1 b2 b3 b4 True b6 b7)
     else c)"

definition py_lower :: "string \<Rightarrow> string" where
  "py_lower s = map lower_chr s"

text \<open>\<^verbatim>\<open>s.strip()\<close> removes the whitespace at both ends.\<close>

definition py_strip :: "string \<Rightarrow> string" where
  "py_strip s = rev (dropWhile isspace_chr (rev (dropWhile isspace_chr s)))"

text \<open>\<^verbatim>\<open>s.startswith(p)\<close> and \<^verbatim>\<open>sub in s\<close>.\<close>

fun startswith :: "string \<Rightarrow> string \<Rightarrow> bool" where
  "startswith s [] = True"
| "startswith [] (p # ps) = False"
| "startswith (c # cs) (p # ps) = (c = p \<and> startswith cs ps)"

fun py_in :: "string \<Rightarrow> string \<Rightarrow> bool" where
  "py_in sub [] = (sub = [])"
| "py_in sub (c # cs) = (startswith (c # cs) sub \<or> py_in sub cs)"

text \<open>
  \<^verbatim>\<open>s.split()\<close> cuts at runs of whitespace and yields no empty word; the first argument
  of \<open>split_ws\<close> is the word being read.
\<close>

fun split_ws :: "string \<Rightarrow> string \<Rightarrow> string list" where
  "split_ws w [] = (if w = [] then [] else [w])"
| "split_ws w (c # cs) =
     (if isspace_chr c then (if w = [] then split_ws [] cs else w # split_ws [] cs)
      else split_ws (w @ [c]) cs)"

definition py_split :: "string \<Rightarrow> string list" where
  "py_split s = split_ws [] s"

fun py_join :: "string \<Rightarrow> string list \<Rightarrow> string" where
  "py_join sep [] = []"
| "py_join sep [w] = w"
| "py_join sep (w # v # ws) = w @ sep @ py_join sep (v # ws)"

text \<open>\<^verbatim>\<open>str(n)\<close> of an integer.\<close>

definition digit_chr :: "int \<Rightarrow> char" where
  "digit_chr d = ''0123456789'' ! nat d"

function str_digits :: "int \<Rightarrow> string" where
  "str_digits n = (if n < 10 then [digit_chr n] else str_digits (n div 10) @ [digit_chr (n mod 10)])"
  by pat_completeness auto
termination
  by (relation "measure nat") auto

declare str_digits.simps [simp del]

definition str_int :: "int \<Rightarrow> string" where
  "str_int n = (if n < 0 then CHR ''-'' # str_digits (- n) else str_digits n)"

subsection \<open>Which strings the float constructor accepts\<close>

text \<open>
  \<^verbatim>\<open>float(s)\<close> removes whitespace at both ends by a table of its own, which is
  smaller than that of \<^verbatim>\<open>strip\<close>: tab to carriage return and the space, and the two
  spaces above 127 (which it first turns into a space); the separators 28 to 31 stay.
\<close>

definition isspace_float_chr :: "char \<Rightarrow> bool" where
  "isspace_float_chr c = (let n = (of_char c :: nat) in
     (9 \<le> n \<and> n \<le> 13) \<or> n = 32 \<or> n = 133 \<or> n = 160)"

definition float_strip :: "string \<Rightarrow> string" where
  "float_strip s = rev (dropWhile isspace_float_chr (rev (dropWhile isspace_float_chr s)))"

text \<open>
  \<^verbatim>\<open>float(s)\<close> raises ValueError unless \<open>s\<close>, with that whitespace at both ends
  removed, is an optional sign followed by \<open>inf\<close>, \<open>infinity\<close> or \<open>nan\<close> in any case, or
  by a decimal number: digits with an optional point and an optional exponent, at least
  one digit before the exponent, single underscores allowed between two digits.
  \<open>digits_tail\<close> reads on after a digit; \<open>scan_digitpart\<close> reads one group of digits and
  returns what follows it.
\<close>

fun digits_tail :: "string \<Rightarrow> string" where
  "digits_tail [] = []"
| "digits_tail [c] = (if isdigit_chr c then [] else [c])"
| "digits_tail (c # d # cs) =
     (if isdigit_chr c then digits_tail (d # cs)
      else if c = CHR ''_'' \<and> isdigit_chr d then digits_tail (d # cs)
      else c # d # cs)"

definition scan_digitpart :: "string \<Rightarrow> string option" where
  "scan_digitpart s = (case s of [] \<Rightarrow> None
     | c # cs \<Rightarrow> if isdigit_chr c then Some (digits_tail cs) else None)"

definition drop_sign :: "string \<Rightarrow> string" where
  "drop_sign s = (case s of [] \<Rightarrow> []
     | c # cs \<Rightarrow> if c = CHR ''+'' \<or> c = CHR ''-'' then cs else c # cs)"

definition exponent_or_end :: "string \<Rightarrow> bool" where
  "exponent_or_end r = (case r of [] \<Rightarrow> True
     | c # r1 \<Rightarrow> (c = CHR ''e'' \<or> c = CHR ''E'') \<and>
         (case scan_digitpart (drop_sign r1) of None \<Rightarrow> False | Some r2 \<Rightarrow> r2 = []))"

definition decimal_number :: "string \<Rightarrow> bool" where
  "decimal_number t = (case scan_digitpart t of
       Some r \<Rightarrow> (case r of
           [] \<Rightarrow> True
         | c # r1 \<Rightarrow> if c = CHR ''.''
             then exponent_or_end (case scan_digitpart r1 of None \<Rightarrow> r1 | Some r2 \<Rightarrow> r2)
             else exponent_or_end r)
     | None \<Rightarrow> (case t of
           [] \<Rightarrow> False
         | c # r1 \<Rightarrow> c = CHR ''.'' \<and>
             (case scan_digitpart r1 of None \<Rightarrow> False | Some r2 \<Rightarrow> exponent_or_end r2)))"

definition float_parses :: "string \<Rightarrow> bool" where
  "float_parses s = (let t = drop_sign (float_strip s) in
     py_lower t \<in> set [''inf'', ''infinity'', ''nan''] \<or> decimal_number t)"

section \<open>Questions\<close>

text \<open>
  A question is a dict with the keys \<^verbatim>\<open>question\<close>, \<^verbatim>\<open>answer\<close> and \<^verbatim>\<open>category\<close>.  The
  generators of the file store strings; the language model's JSON may also carry an
  integer, a boolean or null as the answer (a float, a list or an object is left out of
  the model), and may leave the category out, which the report reads with
  \<^verbatim>\<open>q.get('category', 'General')\<close>.  The question text and a category that is present
  are strings.
\<close>

datatype jval = JStr string | JInt int | JBool bool | JNull

fun py_str :: "jval \<Rightarrow> string" where
  "py_str (JStr s) = s"
| "py_str (JInt n) = str_int n"
| "py_str (JBool b) = (if b then ''True'' else ''False'')"
| "py_str JNull = ''None''"

text \<open>Truth value of a Python object, as \<^verbatim>\<open>not answer\<close> tests it.\<close>

fun py_truthy :: "jval \<Rightarrow> bool" where
  "py_truthy (JStr s) = (s \<noteq> [])"
| "py_truthy (JInt n) = (n \<noteq> 0)"
| "py_truthy (JBool b) = b"
| "py_truthy JNull = False"

record Question =
  question :: string
  answer :: jval
  category :: "string option"

section \<open>The answer-format validator\<close>

text \<open>\<^verbatim>\<open>answer_str.replace(',', '')\<close> deletes every comma.\<close>

definition remove_commas :: "string \<Rightarrow> string" where
  "remove_commas s = filter (\<lambda>c. c \<noteq> CHR '','') s"

text \<open>The two tests on the lowercased question text that select a branch.\<close>

definition who_shaped :: "string \<Rightarrow> bool" where
  "who_shaped question_text = (let question_lower = py_lower question_text in
     startswith question_lower ''who '' \<or> py_in '' who '' question_lower)"


definition is_valid_answer_format :: "string \<Rightarrow> jval \<Rightarrow> bool" where
  "is_valid_answer_format question_text ans =
     (let question_lower = py_lower question_text in
      if \<not> py_truthy ans \<or> py_strip (py_str ans) = [] then False
      else let answer_str = py_strip (py_str ans) in
        if startswith question_lower ''who '' \<or> py_in '' who '' question_lower then
          (if list_ex isupper_chr answer_str \<and> length answer_str < 50 then
             (if 0 < count_list answer_str CHR ''.'' \<or> 6 < length (py_split answer_str)
              then False else True)
           else False)
        else if py_in ''how many'' question_lower \<or> py_in ''what amount'' question_lower \<or>
                startswith question_lower ''how much'' then
          (if float_parses (remove_commas answer_str)
              \<and> \<not> list_ex isalpha_chr answer_str
           then True else False)
        else if 100 < length answer_str \<or> 1 < count_list answer_str CHR ''.'' then False
        else True)"

section \<open>The interest filter\<close>



section \<open>The deduplicator\<close>

text \<open>
  The loop of \<^verbatim>\<open>deduplicate_questions\<close> carries the accepted questions, the set of
  accepted texts, and a dict from an answer to the set of signatures stored for it.  The
  sets are kept as duplicate-free lists (\<open>List.insert\<close> adds an element only when it
  is absent), so \<open>length\<close> is the set's \<^verbatim>\<open>len\<close>.
\<close>

record dedup_state =
  unique_questions :: "Question list"
  seen_questions :: "string list"
  seen_answers :: "string \<rightharpoonup> string list"

definition dedup_init :: dedup_state where
  "dedup_init = \<lparr>unique_questions = [], seen_questions = [], seen_answers = Map.empty\<rparr>"

definition question_signature :: "string \<Rightarrow> string" where
  "question_signature question_text = py_join '' '' (take 5 (py_split (py_lower question_text)))"

definition similar_seen :: "dedup_state \<Rightarrow> string \<Rightarrow> string \<Rightarrow> bool" where
  "similar_seen st ans sig = (case seen_answers st ans of
       None \<Rightarrow> False
     | Some sigs \<Rightarrow> 3 \<le> length sigs \<and>
         list_ex (\<lambda>existing_sig. py_in existing_sig sig \<or> py_in sig existing_sig) sigs)"

definition dedup_step :: "dedup_state \<Rightarrow> Question \<Rightarrow> dedup_state" where
  "dedup_step st q =
     (let question_text = py_strip (question q);
          ans = py_strip (py_str (answer q))
      in if question_text \<in> set (seen_questions st) then st
         else let sig = question_signature question_text
              in if similar_seen st ans sig then st
                 else \<lparr>unique_questions = unique_questions st @ [q],
                       seen_questions = List.insert question_text (seen_questions st),
                       seen_answers = (seen_answers st)(ans \<mapsto>
                          List.insert sig (case seen_answers st ans of None \<Rightarrow> [] | Some sigs \<Rightarrow> sigs))\<rparr>)"

definition deduplicate_questions :: "Question list \<Rightarrow> Question list" where
  "deduplicate_questions questions = unique_questions (foldl dedup_step dedup_init questions)"

section \<open>The prepared records and the generator object\<close>

text \<open>
  One row of the data frame after \<^verbatim>\<open>prepare_data\<close>: the date is held as year, month and
  day (pandas parsed it, so the month is between 1 and 12), the award amount is a finite
  number (a rational here), the award type and the comment may be missing.
\<close>

record row =
  program_name :: string
  recipient_name :: string
  giver_name :: string
  award_type :: "string option"
  award_amount :: rat
  year :: int
  month :: nat
  day :: nat
  submitter_comments :: "string option"

text \<open>
  The generator object: the data frame and the four limits, together with the two
  sources of nondeterminism the methods draw on.  The random generator behind
  \<^verbatim>\<open>df.sample\<close> is a supply of numbers that sampling consumes; the language model is a
  supply of replies, each either the parsed list of questions or \<open>None\<close> when the call
  or the parsing raised.
\<close>

record gen_state =
  df :: "row list"
  comment_limit :: int
  scenario_limit :: int
  ai_advanced_limit :: int
  relationship_limit :: int
  rng :: "nat list"
  llm :: "Question list option list"


subsection \<open>Helpers shared by the generators\<close>

definition mk_question :: "string \<Rightarrow> string \<Rightarrow> string \<Rightarrow> Question" where
  "mk_question text ans cat = \<lparr>question = text, answer = JStr ans, category = Some cat\<rparr>"


text \<open>\<^verbatim>\<open>int(x)\<close> of a finite number truncates toward zero.\<close>

definition py_int_of :: "rat \<Rightarrow> int" where
  "py_int_of x = (if 0 \<le> x then \<lfloor>x\<rfloor> else \<lceil>x\<rceil>)"

text \<open>\<^verbatim>\<open>df.head(n)\<close>: the first \<open>n\<close> rows, or all but the last \<open>-n\<close> rows when \<open>n\<close> is
  negative.\<close>

definition df_head :: "int \<Rightarrow> 'a list \<Rightarrow> 'a list" where
  "df_head n rows = (if 0 \<le> n then take (nat n) rows
                     else take (nat (int (length rows) + n)) rows)"

definition month_name :: "nat \<Rightarrow> string" where
  "month_name m = (if 1 \<le> m \<and> m \<le> 12 then
     [''January'', ''February'', ''March'', ''April'', ''May'', ''June'', ''July'', ''August'',
      ''September'', ''October'', ''November'', ''December''] ! (m - 1) else [])"

definition pad2 :: "nat \<Rightarrow> string" where
  "pad2 d = (if d < 10 then CHR ''0'' # str_int (int d) else str_int (int d))"

text \<open>\<^verbatim>\<open>strftime('%B %d, %Y')\<close> and \<^verbatim>\<open>strftime('%B %Y')\<close> of the row's date.\<close>

definition long_date :: "row \<Rightarrow> string" where
  "long_date r = month_name (month r) @ '' '' @ pad2 (day r) @ '', '' @ str_int (year r)"

definition month_year :: "row \<Rightarrow> string" where
  "month_year r = month_name (month r) @ '' '' @ str_int (year r)"


section \<open>The deterministic generators\<close>

subsection \<open>Factual questions\<close>


subsection \<open>Relationship questions\<close>




section \<open>The generators that draw on the language model or on random sampling\<close>





text \<open>
  \<^verbatim>\<open>df.sample(k)\<close> picks \<open>k\<close> different rows: each pick takes the next number of the
  supply to choose among the rows not yet picked.
\<close>

fun draw :: "nat list \<Rightarrow> nat \<times> nat list" where
  "draw [] = (0, [])"
| "draw (x # g) = (x, g)"

fun sample_rows :: "nat \<Rightarrow> 'a list \<Rightarrow> nat list \<Rightarrow> 'a list \<times> nat list" where
  "sample_rows 0 rows g = ([], g)"
| "sample_rows (Suc k) rows g =
     (if rows = [] then ([], g)
      else let (x, g1) = draw g;
               i = x mod length rows;
               (picked, g2) = sample_rows k (take i rows @ drop (Suc i) rows) g1
           in (rows ! i # picked, g2))"

text \<open>The first loop of the scenario generator, with its counter.\<close>

fun award_questions :: "int \<Rightarrow> int \<Rightarrow> row list \<Rightarrow> Question list" where
  "award_questions award_limit count [] = []"
| "award_questions award_limit count (r # rs) =
     (if 0 < award_amount r \<and> count < award_limit
      then mk_question (''What award amount did '' @ recipient_name r @ '' receive from '' @
               giver_name r @ '' on '' @ long_date r @ ''?'')
             (str_int (py_int_of (award_amount r))) ''Specific Award''
           # award_questions award_limit (count + 1) rs
      else award_questions award_limit count rs)"

definition generate_specific_scenario_questions ::
  "gen_state \<Rightarrow> py_error + (Question list \<times> gen_state)" where
  "generate_specific_scenario_questions s =
    (case scenario_targets (scenario_limit s) of Inl err \<Rightarrow> Inl err
     | Inr (award_limit, giver_limit, recipient_limit) \<Rightarrow>
      (let n = int (length (df s));
           awards = award_questions award_limit 0 (df_head (min (award_limit * 2) n) (df s));
           (givers, g1) =
             (if 0 < giver_limit \<and> 0 < n
              then (let (picked, g) = sample_rows (nat (min giver_limit n)) (df s) (rng s)
                    in (map (\<lambda>r. mk_question (''Who gave a recognition to '' @ recipient_name r @
                                    '' on '' @ long_date r @ ''?'')
                                  (giver_name r) ''Giver-Recipient Relationship'') picked, g))
              else ([], rng s));
           (recipients, g2) =
             (if 0 < recipient_limit \<and> 0 < n
              then (let (picked, g) = sample_rows (nat (min recipient_limit n)) (df s) g1
                    in (map (\<lambda>r. mk_question (''Who received a '' @ program_name r @ '' from '' @
                                    giver_name r @ '' in '' @ month_year r @ ''?'')
                                  (recipient_name r) ''Recognition Details'') picked, g))
              else ([], g1))
       in Inr (awards @ givers @ recipients, s\<lparr>rng := g2\<rparr>)))"

section \<open>The pipeline\<close>





section \<open>Recipients present in several months of the first quarter\<close>

text \<open>
  \<^verbatim>\<open>df.groupby(['Recipient Name', 'Year', 'Month']).size().reset_index()\<close> has one row
  for each (recipient, year, month) that occurs, in the order of the keys; the size
  column is not read afterwards and is left out.
\<close>

definition recipients_by_month :: "row list \<Rightarrow> (string \<times> int \<times> nat) list" where
  "recipients_by_month rows = sort (remdups (map (\<lambda>r. (recipient_name r, year r, month r)) rows))"

definition find_consecutive_months_recipients ::
  "(string \<times> int \<times> nat) list \<Rightarrow> (string \<times> nat list) list" where
  "find_consecutive_months_recipients by_month =
     (let q1_2025 = filter (\<lambda>(name, y, m). y = 2025 \<and> m \<in> set [1, 2, 3]) by_month;
          names = sort (remdups (map fst q1_2025));
          recipient_months =
            map (\<lambda>name. (name, map (\<lambda>(n, y, m). m) (filter (\<lambda>(n, y, m). n = name) q1_2025))) names
      in map (\<lambda>(name, months). (name, sort months))
           (filter (\<lambda>(name, months). 2 \<le> length months) recipient_months))"

section \<open>The text report\<close>

text \<open>
  \<^verbatim>\<open>by_category\<close> is a dict of lists filled in the order of the questions; its items
  are kept in insertion order.
\<close>

definition category_of :: "Question \<Rightarrow> string" where
  "category_of q = (case category q of None \<Rightarrow> ''General'' | Some c \<Rightarrow> c)"

fun append_to_category :: "string \<Rightarrow> Question \<Rightarrow> (string \<times> Question list) list
    \<Rightarrow> (string \<times> Question list) list" where
  "append_to_category c q [] = [(c, [q])]"
| "append_to_category c q ((k, qs) # rest) =
     (if k = c then (k, qs @ [q]) # rest else (k, qs) # append_to_category c q rest)"

definition by_category :: "Question list \<Rightarrow> (string \<times> Question list) list" where
  "by_category questions = foldl (\<lambda>groups q. append_to_category (category_of q) q groups) [] questions"


text \<open>
  The outer and the inner iteration with their counter \<^verbatim>\<open>question_num\<close>: the inner loop numbers the
  questions of one category and hands the counter on.
\<close>

fun number_questions :: "nat \<Rightarrow> Question list \<Rightarrow> (nat \<times> Question) list \<times> nat" where
  "number_questions question_num [] = ([], question_num)"
| "number_questions question_num (q # qs) =
     (let (numbered, next_num) = number_questions (question_num + 1) qs
      in ((question_num, q) # numbered, next_num))"

fun number_categories :: "nat \<Rightarrow> (string \<times> Question list) list
    \<Rightarrow> (string \<times> (nat \<times> Question) list) list" where
  "number_categories question_num [] = []"
| "number_categories question_num ((cat, qs) # rest) =
     (let (numbered, next_num) = number_questions question_num qs
      in (cat, numbered) # number_categories next_num rest)"

definition report_sections :: "Question list \<Rightarrow> (string \<times> (nat \<times> Question) list) list" where
  "report_sections questions = number_categories 1 (sort_key fst (by_category questions))"

text \<open>
  \<^verbatim>\<open>str.upper\<close> on the modelled range: the sharp s becomes \<open>SS\<close>; the micro sign and the
  y with diaeresis, whose capitals lie outside the range, are left as they are.
\<close>

definition upper_chr :: "char \<Rightarrow> string" where
  "upper_chr c = (let n = (of_char c :: nat) in
     if n = 223 then ''SS''
     else if (97 \<le> n \<and> n \<le> 122) \<or> (224 \<le> n \<and> n \<le> 246) \<or> (248 \<le> n \<and> n \<le> 254)
     then [case c of Char b0 b1 b2 b3 b4 b5 b6 b7 \<Rightarrow> Char b0 b1 b2 b3 b4 False b6 b7]
     else [c])"

definition py_upper :: "string \<Rightarrow> string" where
  "py_upper s = concat (map upper_chr s)"

definition rule_line :: string where
  "rule_line = replicate 80 CHR ''=''"

definition render_section :: "string \<times> (nat \<times> Question) list \<Rightarrow> string" where
  "render_section sec = (case sec of (cat, numbered) \<Rightarrow>
     [CHR 0x0A] @ rule_line @ [CHR 0x0A] @
     ''CATEGORY: '' @ py_upper cat @ '' ('' @ str_int (int (length numbered)) @ '' questions)'' @
       [CHR 0x0A] @
     rule_line @ [CHR 0x0A, CHR 0x0A] @
     concat (map (\<lambda>(question_num, q).
         ''Q'' @ str_int (int question_num) @ '': '' @ question q @ [CHR 0x0A] @
         ''Answer: '' @ py_str (answer q) @ [CHR 0x0A, CHR 0x0A]) numbered))"

definition save_questions_formatted :: "Question list \<Rightarrow> string" where
  "save_questions_formatted questions =
     ''QUIZ QUESTIONS - TOTAL: '' @ str_int (int (length questions)) @ [CHR 0x0A] @
     rule_line @ [CHR 0x0A, CHR 0x0A] @
     concat (map render_section (report_sections questions))"

section \<open>A small data set\<close>

text \<open>
  Eight records of one recipient and one giver in January 2025, the snapshot that goes
  with them, a generator object with a scenario limit of 7, and a reply of the language
  model that holds one question of a category of its own choosing.
\<close>

definition example_row :: "nat \<Rightarrow> row" where
  "example_row d = \<lparr>program_name = ''Spot Award'', recipient_name = ''Asha Rao'',
     giver_name = ''Ben Ode'', award_type = Some ''Points'', award_amount = 100,
     year = 2025, month = 1, day = d, submitter_comments = None\<rparr>"


definition trivia_question :: Question where
  "trivia_question = \<lparr>question = ''Which team shipped the audit tool?'',
     answer = JStr ''Platform'', category = Some ''Trivia''\<rparr>"

definition example_state :: gen_state where
  "example_state = \<lparr>df = map example_row [1 ..< 9], comment_limit = 30, scenario_limit = 7,
     ai_advanced_limit = 40, relationship_limit = 10, rng = [3, 1, 4, 1, 5, 9],
     llm = [Some [trivia_question]]\<rparr>"

text \<open>
  Records of the first quarter for two recipients, and four questions of three
  categories, one of them a label in lowercase as the language model may return it.
\<close>

definition quarter_row :: "string \<Rightarrow> nat \<Rightarrow> nat \<Rightarrow> row" where
  "quarter_row name m d = \<lparr>program_name = ''Spot Award'', recipient_name = name,
     giver_name = ''G1'', award_type = None, award_amount = 0,
     year = 2025, month = m, day = d, submitter_comments = None\<rparr>"

definition quarter_rows :: "row list" where
  "quarter_rows = [quarter_row ''R1'' 1 5, quarter_row ''R2'' 1 20, quarter_row ''R1'' 3 9,
     quarter_row ''R1'' 1 6]"

definition march_question :: Question where
  "march_question = \<lparr>question = ''How many recognitions were given in March 2025?'',
     answer = JStr ''4'', category = Some ''Timeframe''\<rparr>"


definition points_question :: Question where
  "points_question = \<lparr>question = ''How many recognitions included Points as the award type?'',
     answer = JStr ''7'', category = Some ''Award Type''\<rparr>"


section \<open>Properties\<close>

subsection \<open>The float literals\<close>

lemma double_literals_nearest:
  "2 ^ 52 \<le> mant_0_4 \<and> mant_0_4 < 2 ^ 53 \<and> \<bar>10 * mant_0_4 - 4 * 2 ^ 54\<bar> * 2 \<le> 10"
  "2 ^ 52 \<le> mant_0_3 \<and> mant_0_3 < 2 ^ 53 \<and> \<bar>10 * mant_0_3 - 3 * 2 ^ 54\<bar> * 2 \<le> 10"
  "2 ^ 52 \<le> mant_0_7 \<and> mant_0_7 < 2 ^ 53 \<and> \<bar>10 * mant_0_7 - 7 * 2 ^ 53\<bar> * 2 \<le> 10"
  by (simp_all add: mant_0_4_def mant_0_3_def mant_0_7_def)

subsection \<open>The split at the default limit\<close>

text \<open>
  C7. With a scenario limit of 40 the three targets are 16 award-amount questions,
  12 giver-lookup questions and 12 recipient-lookup questions.
\<close>

theorem scenario_targets_40: "scenario_targets 40 = Inr (16, 12, 12)"
  by code_simp

subsection \<open>The validator's branches\<close>



text \<open>
  C3, as amended.  The validator takes a question as who-shaped when its lowercased text
  starts with \<open>who\<close> and a space or contains \<open>who\<close> between two spaces.  For such a
  question, an answer of any kind is accepted exactly when it passes the emptiness guard
  (it is not None, False, the number 0 or the empty string) and its text, with the
  whitespace at its ends removed, contains an uppercase character, is shorter than 50
  characters, contains no period and has at most 6 words.  The witness is the answer
  \<open>John A. Smith Jr. reportedly\<close>, which is rejected.
\<close>

theorem who_answer_contract:
  assumes "who_shaped question_text"
  shows "is_valid_answer_format question_text ans =
     (py_truthy ans \<and> list_ex isupper_chr (py_strip (py_str ans)) \<and>
      length (py_strip (py_str ans)) < 50 \<and>
      count_list (py_strip (py_str ans)) CHR ''.'' = 0 \<and>
      length (py_split (py_strip (py_str ans))) \<le> 6)"
proof (cases "py_truthy ans \<and> py_strip (py_str ans) \<noteq> []")
  case False
  then show ?thesis by (auto simp: is_valid_answer_format_def)
next
  case True
  with assms show ?thesis
    by (auto simp: is_valid_answer_format_def who_shaped_def Let_def)
qed

theorem who_answer_contract_witness:
  "who_shaped ''Who led the migration project?'' \<and>
   is_valid_answer_format ''Who led the migration project?''
     (JStr ''John A. Smith Jr. reportedly'') = False \<and>
   is_valid_answer_format ''Who led the migration project?'' (JStr ''Asha Rao'') = True"
proof -
  have w: "who_shaped ''Who led the migration project?''" by code_simp
  have r1: "\<not> (count_list (py_strip (py_str (JStr ''John A. Smith Jr. reportedly''))) CHR ''.'' = 0)"
    by code_simp
  have r2: "py_truthy (JStr ''Asha Rao'') \<and>
      list_ex isupper_chr (py_strip (py_str (JStr ''Asha Rao''))) \<and>
      length (py_strip (py_str (JStr ''Asha Rao''))) < 50 \<and>
      count_list (py_strip (py_str (JStr ''Asha Rao''))) CHR ''.'' = 0 \<and>
      length (py_split (py_strip (py_str (JStr ''Asha Rao'')))) \<le> 6"
    by code_simp
  have a1: "is_valid_answer_format ''Who led the migration project?''
      (JStr ''John A. Smith Jr. reportedly'') = False"
    unfolding who_answer_contract [OF w] using r1 by blast
  have a2: "is_valid_answer_format ''Who led the migration project?'' (JStr ''Asha Rao'') = True"
    unfolding who_answer_contract [OF w] using r2 by blast
  from w a1 a2 show ?thesis by blast
qed

text \<open>
  C3, as stated, fails: a text that starts with the word \<open>who\<close> followed by a comma is
  not taken as who-shaped, and the validator accepts for it an answer without an
  uppercase character, with a period and with eight words.
\<close>

theorem who_token_not_detected:
  "is_valid_answer_format ''Who, among the top givers, gave the most awards?''
     (JStr ''it was probably someone on the platform team.'') = True \<and>
   \<not> list_ex isupper_chr (py_strip ''it was probably someone on the platform team.'') \<and>
   count_list (py_strip ''it was probably someone on the platform team.'') CHR ''.'' = 1 \<and>
   length (py_split (py_strip ''it was probably someone on the platform team.'')) = 8"
  by code_simp




text \<open>
  A separator that \<^verbatim>\<open>strip\<close> would remove but \<^verbatim>\<open>float\<close> does not: the answer
  \<open>5\<close>, code point 28, comma keeps the separator (the comma ends the text), and the
  number does not parse.
\<close>

lemma quantity_inner_separator_rejected:
  "is_valid_answer_format ''How many recognitions did the platform team receive?''
     (JStr [CHR ''5'', CHR 0x1C, CHR '','']) = False"
  by code_simp

subsection \<open>The deduplicator\<close>

text \<open>
  The loop keeps two facts: the seen texts are the stripped texts of the accepted
  questions, and those texts are pairwise different.
\<close>

lemma dedup_step_inv:
  assumes "set (seen_questions st) = set (map (\<lambda>q. py_strip (question q)) (unique_questions st))"
    and "distinct (map (\<lambda>q. py_strip (question q)) (unique_questions st))"
  shows "set (seen_questions (dedup_step st q)) =
           set (map (\<lambda>q. py_strip (question q)) (unique_questions (dedup_step st q))) \<and>
         distinct (map (\<lambda>q. py_strip (question q)) (unique_questions (dedup_step st q)))"
  using assms by (auto simp: dedup_step_def Let_def)

lemma dedup_foldl_inv:
  assumes "set (seen_questions st) = set (map (\<lambda>q. py_strip (question q)) (unique_questions st))"
    and "distinct (map (\<lambda>q. py_strip (question q)) (unique_questions st))"
  shows "set (seen_questions (foldl dedup_step st qs)) =
           set (map (\<lambda>q. py_strip (question q)) (unique_questions (foldl dedup_step st qs))) \<and>
         distinct (map (\<lambda>q. py_strip (question q)) (unique_questions (foldl dedup_step st qs)))"
  using assms
proof (induction qs arbitrary: st)
  case Nil
  then show ?case by simp
next
  case (Cons q qs)
  from dedup_step_inv [OF Cons.prems] show ?case
    by (simp add: Cons.IH)
qed

text \<open>
  C5. In the list the deduplicator returns, the question texts with the whitespace at
  their ends removed are pairwise distinct, for every input list.
\<close>

theorem deduplicated_texts_distinct:
  "distinct (map (\<lambda>q. py_strip (question q)) (deduplicate_questions questions))"
  unfolding deduplicate_questions_def
  by (rule conjunct2 [OF dedup_foldl_inv]) (simp_all add: dedup_init_def)

text \<open>
  C2. The claim has the deduplicator drop a question whose answer already has three
  accepted questions and whose signature meets a stored one.  The loop tests the number
  of distinct signatures stored for the answer instead: four questions with the answer
  \<open>5\<close> that share their first five words leave one stored signature, and all four are
  accepted.
\<close>

theorem dedup_keeps_four_same_signature:
  "deduplicate_questions
     [\<lparr>question = ''How many awards did Asha Rao get in January?'', answer = JStr ''5'',
        category = Some ''Statistical''\<rparr>,
      \<lparr>question = ''How many awards did Asha Rao get in February?'', answer = JStr ''5'',
        category = Some ''Statistical''\<rparr>,
      \<lparr>question = ''How many awards did Asha Rao get in March?'', answer = JStr ''5'',
        category = Some ''Statistical''\<rparr>,
      \<lparr>question = ''How many awards did Asha Rao get in April?'', answer = JStr ''5'',
        category = Some ''Statistical''\<rparr>]
   = [\<lparr>question = ''How many awards did Asha Rao get in January?'', answer = JStr ''5'',
        category = Some ''Statistical''\<rparr>,
      \<lparr>question = ''How many awards did Asha Rao get in February?'', answer = JStr ''5'',
        category = Some ''Statistical''\<rparr>,
      \<lparr>question = ''How many awards did Asha Rao get in March?'', answer = JStr ''5'',
        category = Some ''Statistical''\<rparr>,
      \<lparr>question = ''How many awards did Asha Rao get in April?'', answer = JStr ''5'',
        category = Some ''Statistical''\<rparr>]"
  by code_simp

subsection \<open>The pipeline\<close>











subsection \<open>The deterministic generators\<close>



subsection \<open>How many questions the scenario generator emits\<close>

lemma rne53_nonneg:
  assumes "0 \<le> p"
  shows "0 \<le> rne53 p"
proof -
  have q: "0 \<le> p div 2 ^ s" for s :: nat
    using assms by (simp add: pos_imp_zdiv_nonneg_iff)
  have a: "0 \<le> (p div 2 ^ s + 1) * 2 ^ s" for s :: nat
    using q [of s] by simp
  have b: "0 \<le> p div 2 ^ s * 2 ^ s" for s :: nat
    using q [of s] by simp
  show ?thesis
    unfolding rne53_def Let_def using assms a b by (simp only: split: if_split) blast
qed

lemma int_times_double_nonneg:
  assumes "0 \<le> L" and "0 \<le> m" and "int_times_double L m e = Inr v"
  shows "0 \<le> v"
proof -
  have "0 \<le> rne53 \<bar>L\<bar>" by (rule rne53_nonneg) simp
  then have "0 \<le> rne53 (rne53 \<bar>L\<bar> * m)" using assms(2) by (intro rne53_nonneg) simp
  then have "0 \<le> rne53 (rne53 \<bar>L\<bar> * m) div 2 ^ e" by (simp add: pos_imp_zdiv_nonneg_iff)
  moreover have "0 \<le> sgn L" using assms(1) by (simp add: sgn_if)
  ultimately have nn: "0 \<le> sgn L * (rne53 (rne53 \<bar>L\<bar> * m) div 2 ^ e)" by simp
  show ?thesis
  proof (cases "(2::int) ^ 1024 \<le> rne53 \<bar>L\<bar>")
    case True
    then have "int_times_double L m e = Inl OverflowError"
      unfolding int_times_double_def Let_def by (simp only: if_True)
    with assms(3) show ?thesis by simp
  next
    case False
    then have "int_times_double L m e = Inr (sgn L * (rne53 (rne53 \<bar>L\<bar> * m) div 2 ^ e))"
      unfolding int_times_double_def Let_def by (simp only: if_False)
    with assms(3) nn show ?thesis by simp
  qed
qed

lemma scenario_targets_nonneg:
  assumes "0 \<le> L" and "scenario_targets L = Inr (a, g, r)"
  shows "0 \<le> a \<and> 0 \<le> g \<and> 0 \<le> r"
proof -
  have m4: "0 \<le> mant_0_4" and m3: "0 \<le> mant_0_3" by (simp_all add: mant_0_4_def mant_0_3_def)
  from assms(2) have "int_times_double L mant_0_4 54 = Inr a" "int_times_double L mant_0_3 54 = Inr g"
      "int_times_double L mant_0_3 54 = Inr r"
    unfolding scenario_targets_def by (simp_all split: sum.splits)
  with int_times_double_nonneg [OF assms(1) m4] int_times_double_nonneg [OF assms(1) m3]
  show ?thesis by blast
qed


lemma bitlen_pos: "0 < p \<Longrightarrow> bitlen p = Suc (bitlen (p div 2))"
  by (subst bitlen.simps) simp

lemma bitlen_nonpos: "p \<le> 0 \<Longrightarrow> bitlen p = 0"
  by (subst bitlen.simps) simp

lemma bitlen_lower: "0 < p \<Longrightarrow> 2 ^ (bitlen p - 1) \<le> p"
proof (induction p rule: bitlen.induct)
  case (1 p)
  show ?case
  proof (cases "0 < p div 2")
    case False
    with "1.prems" have "p = 1" by linarith
    then show ?thesis by (simp add: bitlen_pos bitlen_nonpos)
  next
    case True
    with "1.IH" "1.prems" have ih: "2 ^ (bitlen (p div 2) - 1) \<le> p div 2" by simp
    from True have "bitlen (p div 2) = Suc (bitlen (p div 2) - 1)" by (simp add: bitlen_pos)
    then have "(2::int) ^ bitlen (p div 2) = 2 * 2 ^ (bitlen (p div 2) - 1)"
      by (metis power_Suc)
    with ih have "(2::int) ^ bitlen (p div 2) \<le> 2 * (p div 2)" by simp
    also have "\<dots> \<le> p" by simp
    finally show ?thesis using "1.prems" by (simp add: bitlen_pos)
  qed
qed

lemma bitlen_upper: "p < 2 ^ n \<Longrightarrow> bitlen p \<le> n"
proof (induction n arbitrary: p)
  case 0
  then show ?case by (simp add: bitlen_nonpos)
next
  case (Suc n)
  show ?case
  proof (cases "0 < p")
    case False
    then show ?thesis by (simp add: bitlen_nonpos)
  next
    case True
    from Suc.prems have "p div 2 < 2 ^ n" by simp
    from Suc.IH [OF this] True show ?thesis by (simp add: bitlen_pos)
  qed
qed

lemma rne53_small: "0 \<le> p \<Longrightarrow> p < 2 ^ 53 \<Longrightarrow> rne53 p = p"
  using bitlen_upper [of p 53] by (simp add: rne53_def)

lemma rne53_upper:
  assumes "0 \<le> p"
  shows "2 ^ 53 * rne53 p \<le> (2 ^ 53 + 1) * p"
proof (cases "bitlen p \<le> 53")
  case True
  then have "rne53 p = p" by (simp add: rne53_def)
  with assms show ?thesis by (simp add: algebra_simps)
next
  case False
  define s where "s = bitlen p - 53"
  define h :: int where "h = 2 ^ (s - 1)"
  from False have s1: "1 \<le> s" by (simp add: s_def)
  then have two_h: "(2::int) ^ s = 2 * h"
    by (metis h_def le_add_diff_inverse plus_1_eq_Suc power_Suc)
  from False have pos: "0 < p" using assms bitlen_nonpos [of p] by (cases "p = 0") auto
  have "(2::int) ^ 53 * h = 2 ^ (53 + (s - 1))" by (simp add: h_def power_add)
  also have "53 + (s - 1) = bitlen p - 1" using False by (simp add: s_def)
  finally have hp: "2 ^ 53 * h \<le> p" using bitlen_lower [OF pos] by simp
  have up: "(p div 2 ^ s + 1) * 2 ^ s \<le> p + h" if "h \<le> p mod 2 ^ s"
  proof -
    have "(p div 2 ^ s + 1) * 2 ^ s = p div 2 ^ s * 2 ^ s + 2 ^ s" by (simp add: algebra_simps)
    also have "\<dots> = p - p mod 2 ^ s + 2 * h" using two_h by (simp add: minus_mod_eq_div_mult [symmetric])
    also have "\<dots> \<le> p + h" using that by simp
    finally show ?thesis .
  qed
  have down: "p div 2 ^ s * 2 ^ s \<le> p + h"
  proof -
    have "p div 2 ^ s * 2 ^ s \<le> p" by (simp add: minus_mod_eq_div_mult [symmetric])
    moreover have "0 \<le> h" by (simp add: h_def)
    ultimately show ?thesis by simp
  qed
  have "rne53 p \<le> p + h"
    using False up down unfolding rne53_def Let_def s_def [symmetric] h_def [symmetric]
    by (auto simp only: if_False split: if_splits)
  then have "2 ^ 53 * rne53 p \<le> 2 ^ 53 * p + 2 ^ 53 * h" by (simp add: algebra_simps)
  with hp show ?thesis by (simp add: algebra_simps)
qed

lemma mantissas_sum: "mant_0_4 + 2 * mant_0_3 = 2 ^ 54"
  by (simp add: mant_0_4_def mant_0_3_def)

lemma scenario_targets_sum:
  assumes L: "0 \<le> L" "L < 2 ^ 53" and t: "scenario_targets L = Inr (a, g, r)"
  shows "a + g + r \<le> L"
proof -
  have rl: "rne53 \<bar>L\<bar> = L" using L by (simp add: rne53_small)
  have small: "\<not> (2::int) ^ 1024 \<le> L" using L(2) by (simp add: not_le)
  define R4 where "R4 = rne53 (L * mant_0_4)"
  define R3 where "R3 = rne53 (L * mant_0_3)"
  have itd: "int_times_double L m e = Inr (sgn L * (rne53 (L * m) div 2 ^ e))" for m e
    unfolding int_times_double_def Let_def rl using small by (simp only: if_False)
  from t have a: "a = sgn L * (R4 div 2 ^ 54)" and g: "g = sgn L * (R3 div 2 ^ 54)" and r: "r = g"
    unfolding scenario_targets_def itd R4_def R3_def by simp_all
  have m4: "0 \<le> L * mant_0_4" and m3: "0 \<le> L * mant_0_3" using L(1) by (simp_all add: mant_0_4_def mant_0_3_def)
  have nn4: "0 \<le> R4" and nn3: "0 \<le> R3" unfolding R4_def R3_def using m4 m3 by (simp_all add: rne53_nonneg)
  have u4: "2 ^ 53 * R4 \<le> (2 ^ 53 + 1) * (L * mant_0_4)" unfolding R4_def by (rule rne53_upper [OF m4])
  have u3: "2 ^ 53 * R3 \<le> (2 ^ 53 + 1) * (L * mant_0_3)" unfolding R3_def by (rule rne53_upper [OF m3])
  have "L * mant_0_4 + 2 * (L * mant_0_3) = L * 2 ^ 54"
    using mantissas_sum by (metis distrib_left mult.left_commute)
  with u4 u3 have sum: "2 ^ 53 * (R4 + 2 * R3) \<le> (2 ^ 53 + 1) * (L * 2 ^ 54)" by (simp add: algebra_simps)
  have d4: "R4 div 2 ^ 54 * 2 ^ 54 \<le> R4" and d3: "R3 div 2 ^ 54 * 2 ^ 54 \<le> R3"
    by (simp_all add: minus_mod_eq_div_mult [symmetric])
  define A where "A = R4 div 2 ^ 54"
  define G where "G = R3 div 2 ^ 54"
  from d4 d3 have "2 ^ 54 * (A + 2 * G) \<le> R4 + 2 * R3" by (simp add: A_def G_def algebra_simps)
  then have "2 ^ 53 * (2 ^ 54 * (A + 2 * G)) \<le> 2 ^ 53 * (R4 + 2 * R3)" by simp
  with sum have "2 ^ 54 * (2 ^ 53 * (A + 2 * G)) \<le> 2 ^ 54 * ((2 ^ 53 + 1) * L)" by (simp add: algebra_simps)
  then have "2 ^ 53 * (A + 2 * G) \<le> (2 ^ 53 + 1) * L" by simp
  with L(2) have "2 ^ 53 * (A + 2 * G) < 2 ^ 53 * (L + 1)" by (simp add: algebra_simps)
  then have AG: "A + 2 * G \<le> L" by simp
  have "0 \<le> A" "0 \<le> G" using nn4 nn3 by (simp_all add: A_def G_def pos_imp_zdiv_nonneg_iff)
  then have "sgn L * A + 2 * (sgn L * G) \<le> A + 2 * G" using L(1) by (cases "L = 0") (simp_all add: sgn_if)
  with AG a g r show ?thesis by (simp add: A_def G_def)
qed

lemma length_award_questions:
  "int (length (award_questions award_limit count rows)) \<le> max 0 (award_limit - count)"
proof (induction rows arbitrary: count)
  case Nil
  show ?case by simp
next
  case (Cons r rs)
  from Cons.IH [of count] Cons.IH [of "count + 1"] show ?case
    by (auto simp: max_def split: if_splits)
qed

lemma length_sample_rows:
  "sample_rows k rows g = (picked, g') \<Longrightarrow> length picked \<le> k"
proof (induction k arbitrary: rows g picked g')
  case 0
  then show ?case by simp
next
  case (Suc k)
  show ?case
  proof (cases "rows = []")
    case True
    with Suc.prems show ?thesis by simp
  next
    case False
    obtain x g1 where d: "draw g = (x, g1)" by (cases "draw g")
    obtain ys g2 where r: "sample_rows k (take (x mod length rows) rows @ drop (Suc (x mod length rows)) rows) g1 = (ys, g2)"
      by (cases "sample_rows k (take (x mod length rows) rows @ drop (Suc (x mod length rows)) rows) g1")
    from Suc.IH [OF r] have "length ys \<le> k" .
    moreover from Suc.prems False d r have "picked = rows ! (x mod length rows) # ys" by simp
    ultimately show ?thesis by simp
  qed
qed

lemma scenario_questions_shape:
  assumes t: "scenario_targets (scenario_limit s) = Inr (a, g, r)"
    and run: "generate_specific_scenario_questions s = Inr (qs, s')"
  shows "\<exists>rows p1 p2 k1 k2. length qs = length (award_questions a 0 rows) + length p1 + length p2 \<and>
           length (p1 :: row list) \<le> k1 \<and> length (p2 :: row list) \<le> k2 \<and>
           int k1 \<le> max 0 g \<and> int k2 \<le> max 0 r"
proof -
  define n where "n = int (length (df s))"
  obtain p1 g1 where s1: "sample_rows (nat (min g n)) (df s) (rng s) = (p1, g1)"
    by (cases "sample_rows (nat (min g n)) (df s) (rng s)")
  define G1 where "G1 = (if 0 < g \<and> 0 < n then g1 else rng s)"
  define P1 where "P1 = (if 0 < g \<and> 0 < n then p1 else [])"
  obtain p2 g2 where s2: "sample_rows (nat (min r n)) (df s) G1 = (p2, g2)"
    by (cases "sample_rows (nat (min r n)) (df s) G1")
  define P2 where "P2 = (if 0 < r \<and> 0 < n then p2 else [])"
  have len: "length qs = length (award_questions a 0 (df_head (min (a * 2) n) (df s)))
      + length P1 + length P2"
    using run t s1 s2
    by (auto simp: generate_specific_scenario_questions_def Let_def n_def [symmetric] G1_def P1_def P2_def
        split: if_splits)
  have b1: "length P1 \<le> nat (min g n)" using length_sample_rows [OF s1] by (simp add: P1_def)
  have b2: "length P2 \<le> nat (min r n)" using length_sample_rows [OF s2] by (simp add: P2_def)
  have c1: "int (nat (min g n)) \<le> max 0 g" by (simp add: max_def min_def)
  have c2: "int (nat (min r n)) \<le> max 0 r" by (simp add: max_def min_def)
  from len b1 b2 c1 c2 show ?thesis by blast
qed

text \<open>
  C10, as amended.  For a scenario limit that is not negative, a run of the scenario
  generator emits at most \<open>int(L * 0.4) + int(L * 0.3) + int(L * 0.3)\<close> questions, and
  for a limit below \<open>2 ^ 53\<close> (where the conversion to a float is exact) that sum is at
  most the limit.  The three targets of the limit 7 are 2, 2 and 2, six in all, so the
  bound can lie below the limit; the witness is a run with the limit 7 on eight records
  with positive amounts, which emits six questions.
\<close>

theorem scenario_question_count_bound:
  assumes "0 \<le> scenario_limit s"
    and "generate_specific_scenario_questions s = Inr (qs, s')"
  shows "(\<exists>award_limit giver_limit recipient_limit.
            scenario_targets (scenario_limit s) = Inr (award_limit, giver_limit, recipient_limit) \<and>
            int (length qs) \<le> award_limit + giver_limit + recipient_limit \<and>
            (scenario_limit s < 2 ^ 53 \<longrightarrow>
               award_limit + giver_limit + recipient_limit \<le> scenario_limit s)) \<and>
         scenario_targets 7 = Inr (2, 2, 2)"
proof -
  from assms(2) obtain a g r where t: "scenario_targets (scenario_limit s) = Inr (a, g, r)"
    unfolding generate_specific_scenario_questions_def by (auto split: sum.splits)
  from scenario_targets_nonneg [OF assms(1) t] have nn: "0 \<le> a" "0 \<le> g" "0 \<le> r" by auto
  from scenario_questions_shape [OF t assms(2)] obtain rows p1 p2 k1 k2 where
    sh: "length qs = length (award_questions a 0 rows) + length p1 + length p2"
      "length (p1 :: row list) \<le> k1" "length (p2 :: row list) \<le> k2" "int k1 \<le> max 0 g" "int k2 \<le> max 0 r"
    by blast
  have "int (length (award_questions a 0 rows)) \<le> a"
    using length_award_questions [of a 0 rows] nn by simp
  with sh nn have "int (length qs) \<le> a + g + r" by simp
  moreover have "scenario_limit s < 2 ^ 53 \<longrightarrow> a + g + r \<le> scenario_limit s"
    using scenario_targets_sum [OF assms(1) _ t] by blast
  ultimately have "\<exists>award_limit giver_limit recipient_limit.
      scenario_targets (scenario_limit s) = Inr (award_limit, giver_limit, recipient_limit) \<and>
      int (length qs) \<le> award_limit + giver_limit + recipient_limit \<and>
      (scenario_limit s < 2 ^ 53 \<longrightarrow>
         award_limit + giver_limit + recipient_limit \<le> scenario_limit s)"
    using t by blast
  moreover have "scenario_targets 7 = Inr (2, 2, 2)" by code_simp
  ultimately show ?thesis by blast
qed

lemma scenario_run_7:
  "map_sum id (\<lambda>r. int (length (fst r))) (generate_specific_scenario_questions example_state) = Inr 6"
  by code_simp

theorem scenario_question_count_bound_witness:
  "0 \<le> scenario_limit example_state \<and>
   map_sum id (\<lambda>r. int (length (fst r))) (generate_specific_scenario_questions example_state) = Inr 6 \<and>
   (\<exists>award_limit giver_limit recipient_limit.
      scenario_targets (scenario_limit example_state) = Inr (award_limit, giver_limit, recipient_limit) \<and>
      6 \<le> award_limit + giver_limit + recipient_limit) \<and>
   (6::int) < scenario_limit example_state"
proof -
  have L: "0 \<le> scenario_limit example_state" by (simp add: example_state_def)
  have L7: "(6::int) < scenario_limit example_state" by (simp add: example_state_def)
  from scenario_run_7 obtain qs s' where
    run: "generate_specific_scenario_questions example_state = Inr (qs, s')" and len: "int (length qs) = 6"
    by (cases "generate_specific_scenario_questions example_state") auto
  from scenario_question_count_bound [OF L run, THEN conjunct1] len
  have "\<exists>award_limit giver_limit recipient_limit.
      scenario_targets (scenario_limit example_state) = Inr (award_limit, giver_limit, recipient_limit) \<and>
      6 \<le> award_limit + giver_limit + recipient_limit" by auto
  with L L7 scenario_run_7 show ?thesis by blast
qed

text \<open>
  C10, as stated for every limit, fails below zero: with the limit \<open>-40\<close> the targets
  are \<open>-16\<close>, \<open>-12\<close> and \<open>-12\<close>, the generator emits no question, and none is more
  than their sum.
\<close>

theorem scenario_negative_limit:
  "scenario_targets (- 40) = Inr (- 16, - 12, - 12) \<and>
   map_sum id fst (generate_specific_scenario_questions (example_state\<lparr>scenario_limit := - 40\<rparr>))
     = Inr [] \<and>
   (- 16) + (- 12) + (- 12) < int (length ([] :: Question list))"
  by code_simp

subsection \<open>Recipients of several months\<close>

lemma map_of_map_key: "map_of (map (\<lambda>k. (k, f k)) ks) k = (if k \<in> set ks then Some (f k) else None)"
  by (induction ks) auto

lemma map_filter_map_pair:
  "map (\<lambda>(k, v). (k, g v)) (filter (\<lambda>(k, v). P v) (map (\<lambda>k. (k, f k)) ks)) =
   map (\<lambda>k. (k, g (f k))) (filter (\<lambda>k. P (f k)) ks)"
  by (induction ks) auto

lemma months_of_name:
  fixes by_month :: "(string \<times> int \<times> nat) list" and name :: string
  assumes "distinct by_month"
  shows "set (map (\<lambda>(n, y, m). m)
      (filter (\<lambda>(n, y, m). n = name) (filter (\<lambda>(n, y, m). y = 2025 \<and> m \<in> set [1, 2, 3]) by_month)))
       = {m. m \<in> {1, 2, 3} \<and> (name, 2025, m) \<in> set by_month}"
    and "distinct (map (\<lambda>(n, y, m). m)
      (filter (\<lambda>(n, y, m). n = name) (filter (\<lambda>(n, y, m). y = 2025 \<and> m \<in> set [1, 2, 3]) by_month)))"
proof -
  show "set (map (\<lambda>(n, y, m). m)
      (filter (\<lambda>(n, y, m). n = name) (filter (\<lambda>(n, y, m). y = 2025 \<and> m \<in> set [1, 2, 3]) by_month)))
       = {m. m \<in> {1, 2, 3} \<and> (name, 2025, m) \<in> set by_month}"
    by force
  have "inj_on (\<lambda>(n, y, m). m)
      (set (filter (\<lambda>(n, y, m). n = name) (filter (\<lambda>(n, y, m). y = 2025 \<and> m \<in> set [1, 2, 3]) by_month)))"
    by (auto simp: inj_on_def)
  with assms(1) show "distinct (map (\<lambda>(n, y, m). m)
      (filter (\<lambda>(n, y, m). n = name) (filter (\<lambda>(n, y, m). y = 2025 \<and> m \<in> set [1, 2, 3]) by_month)))"
    by (simp add: distinct_map)
qed

lemma find_consecutive_lookup:
  assumes "distinct by_month"
  shows "map_of (find_consecutive_months_recipients by_month) name =
     (let M = {m. m \<in> {1, 2, 3} \<and> (name, 2025, m) \<in> set by_month}
      in if 2 \<le> card M then Some (sorted_list_of_set M) else None)"
proof -
  define q1 where "q1 = filter (\<lambda>(n, y, m). y = 2025 \<and> m \<in> set [1, 2, 3]) by_month"
  define ms where "ms = (\<lambda>name. map (\<lambda>(n, y, m). m) (filter (\<lambda>(n, y, m). n = name) q1))"
  define M where "M = {m. m \<in> {1, 2, 3} \<and> (name, 2025, m) \<in> set by_month}"
  define names where "names = sort (remdups (map fst q1))"
  have set_ms: "set (ms name) = M" and dist_ms: "distinct (ms name)"
    using months_of_name [OF assms, of name] by (simp_all add: ms_def q1_def M_def)
  have len: "length (ms name) = card M"
    using set_ms dist_ms distinct_card by fastforce
  have srt: "sort (ms name) = sorted_list_of_set M"
    using set_ms dist_ms by (metis sorted_list_of_set_sort_remdups distinct_remdups_id)
  have res: "find_consecutive_months_recipients by_month =
      map (\<lambda>n. (n, sort (ms n))) (filter (\<lambda>n. 2 \<le> length (ms n)) names)"
    unfolding find_consecutive_months_recipients_def Let_def ms_def names_def q1_def
    by (rule map_filter_map_pair)
  have mem: "name \<in> set names \<or> ms name = []"
  proof (cases "ms name = []")
    case False
    then obtain t where "t \<in> set q1" "fst t = name"
      by (auto simp: ms_def filter_empty_conv)
    then show ?thesis by (force simp: names_def)
  qed simp
  have "map_of (find_consecutive_months_recipients by_month) name =
      (if name \<in> set names \<and> 2 \<le> length (ms name) then Some (sort (ms name)) else None)"
    by (simp add: res map_of_map_key)
  also have "\<dots> = (if 2 \<le> length (ms name) then Some (sort (ms name)) else None)"
    using mem by auto
  finally show ?thesis by (simp add: len srt M_def Let_def)
qed

lemma find_consecutive_keys_distinct:
  "distinct (map fst (find_consecutive_months_recipients by_month))"
  unfolding find_consecutive_months_recipients_def Let_def map_filter_map_pair
  by (simp add: comp_def)

lemma recipients_by_month_distinct: "distinct (recipients_by_month rows)"
  by (simp add: recipients_by_month_def)

lemma recipients_by_month_set:
  "(name, y, m) \<in> set (recipients_by_month rows) \<longleftrightarrow>
     (\<exists>r \<in> set rows. recipient_name r = name \<and> year r = y \<and> month r = m)"
  by (auto simp: recipients_by_month_def)

text \<open>
  C6.  Applied to the groups of the records by (recipient, year, month), the detection
  flags exactly the recipients whose records fall in at least two different months among
  January, February and March 2025, and stores under each flagged recipient the sorted
  list of those months; a recipient is a key at most once.  In the witness R1 has records
  in January and March and is flagged with \<open>[1, 3]\<close>, and R2, with a record in January
  only, is not.
\<close>

theorem consecutive_months_flagged:
  "map_of (find_consecutive_months_recipients (recipients_by_month rows)) name =
     (let M = month ` {r \<in> set rows. recipient_name r = name \<and> year r = 2025 \<and> month r \<in> {1, 2, 3}}
      in if 2 \<le> card M then Some (sorted_list_of_set M) else None) \<and>
   distinct (map fst (find_consecutive_months_recipients (recipients_by_month rows)))"
proof -
  have "{m. m \<in> {1, 2, 3} \<and> (name, 2025, m) \<in> set (recipients_by_month rows)} =
      month ` {r \<in> set rows. recipient_name r = name \<and> year r = 2025 \<and> month r \<in> {1, 2, 3}}"
    by (auto simp: recipients_by_month_set)
  with find_consecutive_lookup [OF recipients_by_month_distinct, of rows name]
    find_consecutive_keys_distinct [of "recipients_by_month rows"]
  show ?thesis by simp
qed

theorem consecutive_months_flagged_witness:
  "find_consecutive_months_recipients (recipients_by_month quarter_rows) = [(''R1'', [1, 3])] \<and>
   (let M = month ` {r \<in> set quarter_rows. recipient_name r = ''R1'' \<and> year r = 2025 \<and> month r \<in> {1, 2, 3}}
    in if 2 \<le> card M then Some (sorted_list_of_set M) else None) = Some [1, 3] \<and>
   (let M = month ` {r \<in> set quarter_rows. recipient_name r = ''R2'' \<and> year r = 2025 \<and> month r \<in> {1, 2, 3}}
    in if 2 \<le> card M then Some (sorted_list_of_set M) else None) = None"
proof -
  have e: "find_consecutive_months_recipients (recipients_by_month quarter_rows) = [(''R1'', [1, 3])]"
    by code_simp
  have r1: "map_of (find_consecutive_months_recipients (recipients_by_month quarter_rows)) ''R1'' = Some [1, 3]"
    unfolding e by simp
  have r2: "map_of (find_consecutive_months_recipients (recipients_by_month quarter_rows)) ''R2'' = None"
    unfolding e by simp
  from e r1 r2 consecutive_months_flagged [of quarter_rows "''R1''", THEN conjunct1]
    consecutive_months_flagged [of quarter_rows "''R2''", THEN conjunct1]
  show ?thesis by simp
qed

subsection \<open>The text report\<close>

















text \<open>The text written for two questions of two categories.\<close>

lemma report_text_example:
  "save_questions_formatted [march_question, points_question] =
   ''QUIZ QUESTIONS - TOTAL: 2'' @ [CHR 0x0A] @ replicate 80 CHR ''='' @ [CHR 0x0A, CHR 0x0A] @
   [CHR 0x0A] @ replicate 80 CHR ''='' @ [CHR 0x0A] @ ''CATEGORY: AWARD TYPE (1 questions)'' @ [CHR 0x0A] @
   replicate 80 CHR ''='' @ [CHR 0x0A, CHR 0x0A] @
   ''Q1: How many recognitions included Points as the award type?'' @ [CHR 0x0A] @
   ''Answer: 7'' @ [CHR 0x0A, CHR 0x0A] @
   [CHR 0x0A] @ replicate 80 CHR ''='' @ [CHR 0x0A] @ ''CATEGORY: TIMEFRAME (1 questions)'' @ [CHR 0x0A] @
   replicate 80 CHR ''='' @ [CHR 0x0A, CHR 0x0A] @
   ''Q2: How many recognitions were given in March 2025?'' @ [CHR 0x0A] @
   ''Answer: 4'' @ [CHR 0x0A, CHR 0x0A]"
  by code_simp

end
